theory Spec2Isabelle
  imports Complex_Main "HOL-Library.Word"
begin

section \<open>Data model of cmd/stats.go\<close>

text \<open>
  Go's \<open>int64\<close> is a 64-bit word: \<open>+\<close> and \<open>-\<close> wrap, and the comparisons of the
  source are the signed ones (\<open><s\<close>, \<open>\<le>s\<close>).
\<close>

type_synonym int64 = "64 word"

text \<open>
  A \<open>time.Time\<close> is modelled by its number of nanoseconds since the Unix epoch;
  \<open>Unix\<close> is the number of whole seconds, as an \<open>int64\<close>.  A \<open>time.Duration\<close> is a
  number of nanoseconds that \<open>Time.Sub\<close> saturates to the \<open>int64\<close> range.  \<open>float64\<close>
  values are modelled by reals: the source never does arithmetic on a percentile, and
  the only float arithmetic is the division in \<open>GetQPS\<close>.
\<close>

type_synonym Time = int

definition Unix :: "Time \<Rightarrow> int64" where
  "Unix t = word_of_int (t div 1000000000)"

definition Since :: "Time \<Rightarrow> Time \<Rightarrow> int" where
  "Since now t = max (- (2 ^ 63)) (min (2 ^ 63 - 1) (now - t))"

definition Seconds :: "int \<Rightarrow> real" where
  "Seconds d = real_of_int d / 1000000000"

definition MetricWindowSizeSeconds :: int64 where
  "MetricWindowSizeSeconds = 5"

record LatencyEvent =
  LatencyMicros :: int64
  Timestamp :: Time

text \<open>
  The package \<open>github.com/HdrHistogram/hdrhistogram-go\<close> is an external dependency of
  the repository.  Its operations are a parameter \<open>H\<close> of every function that uses a
  histogram: \<open>'h\<close> is the state of one histogram, and the five fields are the five
  operations that stats.go calls (\<open>RecordValue\<close> returns the histogram after the
  call; the source discards its error result).
\<close>

record 'h hdrhistogram =
  hdr_New :: "int64 \<Rightarrow> int64 \<Rightarrow> int \<Rightarrow> 'h"
  hdr_RecordValue :: "'h \<Rightarrow> int64 \<Rightarrow> 'h"
  hdr_TotalCount :: "'h \<Rightarrow> int64"
  hdr_ValueAtQuantile :: "'h \<Rightarrow> real \<Rightarrow> int64"
  hdr_Max :: "'h \<Rightarrow> int64"

text \<open>
  A buffered channel: the values waiting in its buffer, oldest first, and the capacity
  given to \<open>make\<close>.
\<close>

record 'a chan =
  chan_buf :: "'a list"
  chan_cap :: nat

definition make_chan :: "nat \<Rightarrow> 'a chan" where
  "make_chan n = \<lparr>chan_buf = [], chan_cap = n\<rparr>"

text \<open>
  The struct \<open>PerformanceStats\<close>.  The three histogram pointers are never nil (they
  are only ever assigned a result of \<open>hdrhistogram.New\<close>) and no two fields point to the
  same histogram when a histogram is written, so a pointer is modelled by the histogram
  it points to.  A Go map is a partial function.  The channel \<open>done\<close> carries no value;
  its field is named \<open>doneChannel\<close>.
\<close>

record 'h PerformanceStats =
  TotalOps :: int64
  SuccessOps :: int64
  FailedOps :: int64
  Histogram :: 'h
  StartTime :: Time
  latencyChannel :: "LatencyEvent chan"
  errorChannel :: "unit chan"
  doneChannel :: "unit chan"
  currentWindowStartSecond :: int64
  currentHistogram :: 'h
  windowedHistograms :: "int64 \<rightharpoonup> 'h"
  perSecondOps :: "int64 \<rightharpoonup> int64"
  perSecondErrors :: "int64 \<rightharpoonup> int64"
  lastSecond :: int64
  currentSecondOps :: int64
  currentSecondErrors :: int64

text \<open>
  \<open>NewPerformanceStats\<close> reads the clock twice (\<open>StartTime\<close> and \<open>lastSecond\<close>); the
  two readings are the arguments \<open>now1\<close> and \<open>now2\<close>.  Fields that the composite
  literal does not mention have Go's zero value.
\<close>

definition NewPerformanceStats :: "'h hdrhistogram \<Rightarrow> Time \<Rightarrow> Time \<Rightarrow> 'h PerformanceStats" where
  "NewPerformanceStats H now1 now2 =
     \<lparr>TotalOps = 0,
      SuccessOps = 0,
      FailedOps = 0,
      Histogram = hdr_New H 1 (60 * 1000 * 1000) 3,
      StartTime = now1,
      latencyChannel = make_chan 1000000,
      errorChannel = make_chan 100,
      doneChannel = make_chan 0,
      currentWindowStartSecond = 0,
      currentHistogram = hdr_New H 1 (60 * 1000 * 1000) 3,
      windowedHistograms = Map.empty,
      perSecondOps = Map.empty,
      perSecondErrors = Map.empty,
      lastSecond = Unix now2,
      currentSecondOps = 0,
      currentSecondErrors = 0\<rparr>"

section \<open>The collector goroutine\<close>

text \<open>
  The two receiving cases of \<open>statsCollector\<close> are written from blocks, one per run of
  consecutive source lines, so that each block is a single record update.

  \<open>saveSecond\<close>: lines 79 to 82 of the latency case and, with the same text, lines 122
  to 125 of the error case.
\<close>

definition saveSecond :: "'h PerformanceStats \<Rightarrow> 'h PerformanceStats" where
  "saveSecond ps =
     (if 0 <s currentSecondOps ps \<or> 0 <s currentSecondErrors ps
      then ps\<lparr>perSecondOps := (perSecondOps ps)(lastSecond ps \<mapsto> currentSecondOps ps),
              perSecondErrors := (perSecondErrors ps)(lastSecond ps \<mapsto> currentSecondErrors ps)\<rparr>
      else ps)"

text \<open>\<open>resetSecond\<close>: lines 84 to 86, and with the same text lines 127 to 129.\<close>

definition resetSecond :: "int64 \<Rightarrow> 'h PerformanceStats \<Rightarrow> 'h PerformanceStats" where
  "resetSecond currentSecond ps =
     ps\<lparr>currentSecondOps := 0, currentSecondErrors := 0, lastSecond := currentSecond\<rparr>"

text \<open>
  \<open>cleanupOldSeconds\<close>: the \<open>range\<close> loop of lines 90 to 95, which only the latency
  case has.  The loop visits every key of \<open>perSecondOps\<close> and deletes the key from both
  maps when it is more than 60 seconds old.  Deleting the visited key does not change
  which other keys are visited, and the order of the visit does not matter, so the loop
  is the pointwise update below.
\<close>

definition cleanupOldSeconds :: "int64 \<Rightarrow> 'h PerformanceStats \<Rightarrow> 'h PerformanceStats" where
  "cleanupOldSeconds currentSecond ps =
     ps\<lparr>perSecondOps :=
          (\<lambda>sec. if perSecondOps ps sec \<noteq> None \<and> 60 <s currentSecond - sec
                 then None else perSecondOps ps sec),
        perSecondErrors :=
          (\<lambda>sec. if perSecondOps ps sec \<noteq> None \<and> 60 <s currentSecond - sec
                 then None else perSecondErrors ps sec)\<rparr>"

text \<open>\<open>rollWindow\<close>: lines 103 to 109.\<close>

definition rollWindow ::
  "'h hdrhistogram \<Rightarrow> int64 \<Rightarrow> 'h PerformanceStats \<Rightarrow> 'h PerformanceStats" where
  "rollWindow H currentSecond ps =
     (if MetricWindowSizeSeconds \<le>s currentSecond - currentWindowStartSecond ps
      then (if 0 <s hdr_TotalCount H (currentHistogram ps)
            then ps\<lparr>windowedHistograms :=
                      (windowedHistograms ps)(currentWindowStartSecond ps \<mapsto> currentHistogram ps)\<rparr>
            else ps)
           \<lparr>currentWindowStartSecond := currentSecond,
            currentHistogram := hdr_New H 1 (60 * 1000 * 1000) 3\<rparr>
      else ps)"

text \<open>
  The body of \<open>case event := <-ps.latencyChannel\<close> (lines 73 to 114).  An update
  \<open>f_update g ps\<close> sets the field \<open>f\<close> to \<open>g (f ps)\<close>: \<open>ps.f++\<close> is
  \<open>f_update (\<lambda>n. n + 1) ps\<close>.
\<close>

definition statsCollector_latency ::
  "'h hdrhistogram \<Rightarrow> LatencyEvent \<Rightarrow> 'h PerformanceStats \<Rightarrow> 'h PerformanceStats" where
  "statsCollector_latency H event ps0 =
     (let currentSecond = Unix (Timestamp event);
          ps = (if currentSecond \<noteq> lastSecond ps0
                then cleanupOldSeconds currentSecond (resetSecond currentSecond (saveSecond ps0))
                else ps0);
          ps = currentSecondOps_update (\<lambda>n. n + 1) ps;
          ps = Histogram_update (\<lambda>h. hdr_RecordValue H h (LatencyMicros event)) ps;
          ps = rollWindow H currentSecond ps;
          ps = currentHistogram_update (\<lambda>h. hdr_RecordValue H h (LatencyMicros event)) ps;
          ps = SuccessOps_update (\<lambda>n. n + 1) ps
      in TotalOps_update (\<lambda>n. n + 1) ps)"

text \<open>
  The body of \<open>case <-ps.errorChannel\<close> (lines 116 to 135); \<open>now\<close> is what
  \<open>time.Now()\<close> returns when the signal is received.
\<close>

definition statsCollector_error :: "Time \<Rightarrow> 'h PerformanceStats \<Rightarrow> 'h PerformanceStats" where
  "statsCollector_error now ps0 =
     (let currentSecond = Unix now;
          ps = (if currentSecond \<noteq> lastSecond ps0
                then resetSecond currentSecond (saveSecond ps0)
                else ps0);
          ps = currentSecondErrors_update (\<lambda>n. n + 1) ps;
          ps = FailedOps_update (\<lambda>n. n + 1) ps
      in TotalOps_update (\<lambda>n. n + 1) ps)"

text \<open>
  What one iteration of the \<open>select\<close> receives: a latency event, or a failure signal
  together with the clock reading taken on its receipt.
\<close>

datatype received = RecvLatency LatencyEvent | RecvError Time

text \<open>
  The loop of \<open>statsCollector\<close>, run on the values its \<open>select\<close> receives one after
  the other; when the list is used up the \<open>done\<close> case is taken and the goroutine
  returns.
\<close>

fun statsCollector ::
  "'h hdrhistogram \<Rightarrow> received list \<Rightarrow> 'h PerformanceStats \<Rightarrow> 'h PerformanceStats" where
  "statsCollector H [] ps = ps"
| "statsCollector H (RecvLatency event # rest) ps =
     statsCollector H rest (statsCollector_latency H event ps)"
| "statsCollector H (RecvError now # rest) ps =
     statsCollector H rest (statsCollector_error now ps)"

fun is_success :: "received \<Rightarrow> bool" where
  "is_success (RecvLatency event) = True"
| "is_success (RecvError now) = False"

fun is_failure :: "received \<Rightarrow> bool" where
  "is_failure (RecvLatency event) = False"
| "is_failure (RecvError now) = True"

section \<open>Producers\<close>

text \<open>
  \<open>RecordLatency\<close> and \<open>RecordError\<close> are a \<open>select\<close> with one send case and a
  \<open>default\<close>: the value goes to the end of the buffer when the buffer has room, and
  the \<open>default\<close> case, which does nothing, is taken when it has none.  \<open>now\<close> is the
  clock reading that \<open>RecordLatency\<close> puts into the event.
\<close>

definition RecordLatency :: "int64 \<Rightarrow> Time \<Rightarrow> 'h PerformanceStats \<Rightarrow> 'h PerformanceStats" where
  "RecordLatency latencyMicros now ps =
     (if length (chan_buf (latencyChannel ps)) < chan_cap (latencyChannel ps)
      then ps\<lparr>latencyChannel := (latencyChannel ps)
                \<lparr>chan_buf := chan_buf (latencyChannel ps) @
                   [\<lparr>LatencyMicros = latencyMicros, Timestamp = now\<rparr>]\<rparr>\<rparr>
      else ps)"

definition RecordError :: "'h PerformanceStats \<Rightarrow> 'h PerformanceStats" where
  "RecordError ps =
     (if length (chan_buf (errorChannel ps)) < chan_cap (errorChannel ps)
      then ps\<lparr>errorChannel := (errorChannel ps)\<lparr>chan_buf := chan_buf (errorChannel ps) @ [()]\<rparr>\<rparr>
      else ps)"

text \<open>A channel is full when its buffer holds as many values as its capacity.\<close>

definition chan_full :: "'a chan \<Rightarrow> bool" where
  "chan_full c = (length (chan_buf c) = chan_cap c)"

section \<open>Producers and collector together\<close>

text \<open>
  One iteration of the collector's \<open>select\<close> that takes the latency case removes the
  oldest event of \<open>latencyChannel\<close> and runs the body of the case on it; the case is not
  ready when the buffer is empty, and the state stays as it is.  The error case is
  alike.
\<close>

definition select_latency :: "'h hdrhistogram \<Rightarrow> 'h PerformanceStats \<Rightarrow> 'h PerformanceStats" where
  "select_latency H ps =
     (case chan_buf (latencyChannel ps) of
        [] \<Rightarrow> ps
      | event # rest \<Rightarrow>
          statsCollector_latency H event
            (ps\<lparr>latencyChannel := (latencyChannel ps)\<lparr>chan_buf := rest\<rparr>\<rparr>))"

definition select_error :: "Time \<Rightarrow> 'h PerformanceStats \<Rightarrow> 'h PerformanceStats" where
  "select_error now ps =
     (case chan_buf (errorChannel ps) of
        [] \<Rightarrow> ps
      | u # rest \<Rightarrow>
          statsCollector_error now
            (ps\<lparr>errorChannel := (errorChannel ps)\<lparr>chan_buf := rest\<rparr>\<rparr>))"

text \<open>
  The steps of a run of the whole aggregator, in the order in which they take effect:
  a producer's call, or an iteration of the collector.
\<close>

datatype action =
    CallRecordLatency int64 Time
  | CallRecordError
  | SelectLatency
  | SelectError Time

fun perform :: "'h hdrhistogram \<Rightarrow> action \<Rightarrow> 'h PerformanceStats \<Rightarrow> 'h PerformanceStats" where
  "perform H (CallRecordLatency latencyMicros now) ps = RecordLatency latencyMicros now ps"
| "perform H CallRecordError ps = RecordError ps"
| "perform H SelectLatency ps = select_latency H ps"
| "perform H (SelectError now) ps = select_error now ps"

fun run :: "'h hdrhistogram \<Rightarrow> action list \<Rightarrow> 'h PerformanceStats \<Rightarrow> 'h PerformanceStats" where
  "run H [] ps = ps"
| "run H (a # as) ps = run H as (perform H a ps)"

text \<open>
  The number of calls of \<open>RecordLatency\<close> in a run that found room in the mailbox, and
  the number of calls of \<open>RecordError\<close> that did: the events that the run has put
  into the mailboxes.
\<close>

fun enqueued_latency :: "'h hdrhistogram \<Rightarrow> action list \<Rightarrow> 'h PerformanceStats \<Rightarrow> nat" where
  "enqueued_latency H [] ps = 0"
| "enqueued_latency H (a # as) ps =
     (case a of
        CallRecordLatency latencyMicros now \<Rightarrow>
          if length (chan_buf (latencyChannel ps)) < chan_cap (latencyChannel ps) then 1 else 0
      | _ \<Rightarrow> 0)
     + enqueued_latency H as (perform H a ps)"

fun enqueued_error :: "'h hdrhistogram \<Rightarrow> action list \<Rightarrow> 'h PerformanceStats \<Rightarrow> nat" where
  "enqueued_error H [] ps = 0"
| "enqueued_error H (a # as) ps =
     (case a of
        CallRecordError \<Rightarrow>
          if length (chan_buf (errorChannel ps)) < chan_cap (errorChannel ps) then 1 else 0
      | _ \<Rightarrow> 0)
     + enqueued_error H as (perform H a ps)"

section \<open>Queries\<close>

text \<open>In each query \<open>now\<close> is the clock reading of its call.\<close>

definition GetQPS :: "Time \<Rightarrow> 'h PerformanceStats \<Rightarrow> real" where
  "GetQPS now ps =
     (let elapsed = Seconds (Since now (StartTime ps))
      in if elapsed = 0 then 0 else real_of_int (sint (TotalOps ps)) / elapsed)"

definition GetStats ::
  "'h hdrhistogram \<Rightarrow> Time \<Rightarrow> 'h PerformanceStats \<Rightarrow>
     int64 \<times> int64 \<times> int64 \<times> real \<times> int64 \<times> int64 \<times> int64" where
  "GetStats H now ps =
     (let total = TotalOps ps;
          success = SuccessOps ps;
          failed = FailedOps ps;
          qps = GetQPS now ps;
          (p50, p95, p99) =
            (if 0 <s hdr_TotalCount H (Histogram ps)
             then (hdr_ValueAtQuantile H (Histogram ps) 50,
                   hdr_ValueAtQuantile H (Histogram ps) 95,
                   hdr_ValueAtQuantile H (Histogram ps) 99)
             else (0, 0, 0))
      in (total, success, failed, qps, p50, p95, p99))"

text \<open>A lookup of a key that a map of pointers does not have gives nil.\<close>

definition GetPreviousWindowStats ::
  "'h hdrhistogram \<Rightarrow> 'h PerformanceStats \<Rightarrow> int64 \<times> int64 \<times> int64 \<times> int64 \<times> int64" where
  "GetPreviousWindowStats H ps =
     (case windowedHistograms ps (currentWindowStartSecond ps - MetricWindowSizeSeconds) of
        None \<Rightarrow> (0, 0, 0, 0, 0)
      | Some histToUse \<Rightarrow>
          if hdr_TotalCount H histToUse = 0 then (0, 0, 0, 0, 0)
          else (hdr_TotalCount H histToUse,
                hdr_ValueAtQuantile H histToUse 50,
                hdr_ValueAtQuantile H histToUse 95,
                hdr_ValueAtQuantile H histToUse 99,
                hdr_Max H histToUse))"

definition GetOverallStats :: "Time \<Rightarrow> 'h PerformanceStats \<Rightarrow> int64 \<times> int64 \<times> int64 \<times> real" where
  "GetOverallStats now ps = (TotalOps ps, SuccessOps ps, FailedOps ps, GetQPS now ps)"

definition GetOpsLastSecond :: "Time \<Rightarrow> 'h PerformanceStats \<Rightarrow> int64" where
  "GetOpsLastSecond now ps =
     (let lastSec = Unix now - 1
      in case perSecondOps ps lastSec of Some ops \<Rightarrow> ops | None \<Rightarrow> 0)"

definition GetErrorsLastSecond :: "Time \<Rightarrow> 'h PerformanceStats \<Rightarrow> int64" where
  "GetErrorsLastSecond now ps =
     (let lastSec = Unix now - 1
      in case perSecondErrors ps lastSec of Some errors \<Rightarrow> errors | None \<Rightarrow> 0)"

text \<open>
  The test \<open>exists && hist.TotalCount() > 0\<close> is \<open>archived_nonempty\<close>; the test
  \<open>ps.currentHistogram != nil\<close> is always true.
\<close>

definition archived_nonempty :: "'h hdrhistogram \<Rightarrow> 'h option \<Rightarrow> bool" where
  "archived_nonempty H entry =
     (case entry of None \<Rightarrow> False | Some hist \<Rightarrow> 0 <s hdr_TotalCount H hist)"

definition GetLastSecondPercentile ::
  "'h hdrhistogram \<Rightarrow> Time \<Rightarrow> real \<Rightarrow> 'h PerformanceStats \<Rightarrow> int64" where
  "GetLastSecondPercentile H now percentile ps =
     (let lastSec = Unix now - 1
      in case windowedHistograms ps lastSec of
           Some hist \<Rightarrow>
             if 0 <s hdr_TotalCount H hist then hdr_ValueAtQuantile H hist percentile
             else if 0 <s hdr_TotalCount H (currentHistogram ps)
               then hdr_ValueAtQuantile H (currentHistogram ps) percentile
             else 0
         | None \<Rightarrow>
             if 0 <s hdr_TotalCount H (currentHistogram ps)
               then hdr_ValueAtQuantile H (currentHistogram ps) percentile
             else 0)"

section \<open>What the theorems ask of a histogram\<close>

text \<open>
  Every histogram of stats.go is made by \<open>hdrhistogram.New(1, 60*1000*1000, 3)\<close> and
  then only changed by \<open>RecordValue\<close>: \<open>recorded H vs\<close> is the histogram in which the
  values \<open>vs\<close> have been recorded one after the other.  A new histogram is empty when
  its count is 0, and the histograms record the value \<open>v\<close> when \<open>RecordValue\<close> of
  \<open>v\<close> raises the count of each of them by one (the library refuses a value outside
  its range and leaves the histogram as it was).
\<close>

definition recorded :: "'h hdrhistogram \<Rightarrow> int64 list \<Rightarrow> 'h" where
  "recorded H vs = foldl (hdr_RecordValue H) (hdr_New H 1 (60 * 1000 * 1000) 3) vs"

definition hdr_new_empty :: "'h hdrhistogram \<Rightarrow> bool" where
  "hdr_new_empty H = (hdr_TotalCount H (recorded H []) = 0)"

definition hdr_records :: "'h hdrhistogram \<Rightarrow> int64 \<Rightarrow> bool" where
  "hdr_records H v =
     (\<forall>vs. hdr_TotalCount H (hdr_RecordValue H (recorded H vs) v) =
           hdr_TotalCount H (recorded H vs) + 1)"

section \<open>A reference histogram\<close>

text \<open>
  An exact histogram, which keeps every value it records, in the order of recording.  It
  records the values from 0 to the highest trackable value given to \<open>New\<close>, its
  quantile is the nearest rank, and the maximum of an empty histogram is 0.  The
  theorems are instantiated with it at concrete inputs.
\<close>

record ref_hist =
  rh_lowest :: int64
  rh_highest :: int64
  rh_values :: "int64 list"

definition ref_quantile :: "int64 list \<Rightarrow> real \<Rightarrow> int64" where
  "ref_quantile vs q =
     (if vs = [] then 0
      else sort vs ! min (length vs - 1) (nat \<lceil>q * real (length vs) / 100\<rceil> - 1))"

definition ref_hdr :: "ref_hist hdrhistogram" where
  "ref_hdr =
     \<lparr>hdr_New = (\<lambda>lo hi sf. \<lparr>rh_lowest = lo, rh_highest = hi, rh_values = []\<rparr>),
      hdr_RecordValue =
        (\<lambda>h v. if 0 \<le>s v \<and> v \<le>s rh_highest h then h\<lparr>rh_values := rh_values h @ [v]\<rparr> else h),
      hdr_TotalCount = (\<lambda>h. word_of_nat (length (rh_values h))),
      hdr_ValueAtQuantile = (\<lambda>h q. ref_quantile (rh_values h) q),
      hdr_Max = (\<lambda>h. fold max (rh_values h) 0)\<rparr>"

section \<open>Invariants\<close>

text \<open>
  The two invariants of the aggregate state: the three counters agree, and the two
  per-second maps have the same keys.
\<close>

definition counters_agree :: "'h PerformanceStats \<Rightarrow> bool" where
  "counters_agree ps = (TotalOps ps = SuccessOps ps + FailedOps ps)"

definition same_keys :: "'h PerformanceStats \<Rightarrow> bool" where
  "same_keys ps = (dom (perSecondOps ps) = dom (perSecondErrors ps))"

text \<open>
  The mailboxes keep the capacities that \<open>NewPerformanceStats\<close> gave them and never
  hold more than their capacity.
\<close>

definition mailboxes_bounded :: "'h PerformanceStats \<Rightarrow> bool" where
  "mailboxes_bounded ps =
     (chan_cap (latencyChannel ps) = 1000000
      \<and> length (chan_buf (latencyChannel ps)) \<le> chan_cap (latencyChannel ps)
      \<and> chan_cap (errorChannel ps) = 100
      \<and> length (chan_buf (errorChannel ps)) \<le> chan_cap (errorChannel ps))"

section \<open>Example inputs\<close>

text \<open>
  The success event with latency \<open>v\<close> whose time stamp is a quarter of a second into
  the second \<open>s\<close>, and a fresh aggregator made at the start of second 0.
\<close>

definition example_event :: "int64 \<Rightarrow> int \<Rightarrow> LatencyEvent" where
  "example_event v s = \<lparr>LatencyMicros = v, Timestamp = s * 1000000000 + 250000000\<rparr>"

definition example_fresh :: "ref_hist PerformanceStats" where
  "example_fresh = NewPerformanceStats ref_hdr 0 0"

text \<open>The aggregator with both mailboxes full.\<close>

definition example_full :: "ref_hist PerformanceStats" where
  "example_full =
     example_fresh
       \<lparr>latencyChannel := \<lparr>chan_buf = replicate 1000000 (example_event 1 0), chan_cap = 1000000\<rparr>,
        errorChannel := \<lparr>chan_buf = replicate 100 (), chan_cap = 100\<rparr>\<rparr>"

text \<open>
  One success event in each of the seconds 0 to 5, and the aggregator that has received
  them.
\<close>

definition example_six :: "received list" where
  "example_six =
     map RecvLatency [example_event 10 0, example_event 20 1, example_event 30 2,
       example_event 40 3, example_event 50 4, example_event 60 5]"

definition example_after_six :: "ref_hist PerformanceStats" where
  "example_after_six = statsCollector ref_hdr example_six example_fresh"

text \<open>
  A run in which two successes and one failure are recorded and the collector takes all
  three out of the mailboxes.
\<close>

definition example_run :: "action list" where
  "example_run =
     [CallRecordLatency 100 250000000, CallRecordError, SelectLatency,
      CallRecordLatency 200 1250000000, SelectError 1300000000, SelectLatency]"

section \<open>Lemmas\<close>

lemmas block_defs = saveSecond_def resetSecond_def cleanupOldSeconds_def rollWindow_def

lemmas eval_defs = statsCollector_latency_def statsCollector_error_def block_defs Let_def
  MetricWindowSizeSeconds_def Unix_def NewPerformanceStats_def word_sless_alt word_sle_eq

lemma recorded_snoc: "recorded H (vs @ [v]) = hdr_RecordValue H (recorded H vs) v"
  by (simp add: recorded_def)

lemma recorded_Nil: "recorded H [] = hdr_New H 1 (60 * 1000 * 1000) 3"
  by (simp add: recorded_def)

lemma recorded_count:
  assumes "hdr_new_empty H" and "\<forall>v \<in> set vs. hdr_records H v"
  shows "hdr_TotalCount H (recorded H vs) = word_of_nat (length vs)"
  using assms(2)
proof (induction vs rule: rev_induct)
  case Nil
  then show ?case using assms(1) by (simp add: hdr_new_empty_def)
next
  case (snoc v vs)
  then have "hdr_records H v" by simp
  then have "hdr_TotalCount H (recorded H (vs @ [v])) = hdr_TotalCount H (recorded H vs) + 1"
    by (simp add: hdr_records_def recorded_snoc)
  with snoc show ?case by simp
qed

lemma latency_same_window:
  assumes "\<not> MetricWindowSizeSeconds \<le>s Unix (Timestamp event) - currentWindowStartSecond ps"
  shows "currentWindowStartSecond (statsCollector_latency H event ps) = currentWindowStartSecond ps"
    and "windowedHistograms (statsCollector_latency H event ps) = windowedHistograms ps"
    and "currentHistogram (statsCollector_latency H event ps) =
           hdr_RecordValue H (currentHistogram ps) (LatencyMicros event)"
  using assms by (auto simp add: statsCollector_latency_def block_defs Let_def)

lemma latency_new_window:
  assumes "MetricWindowSizeSeconds \<le>s Unix (Timestamp event) - currentWindowStartSecond ps"
    and "0 <s hdr_TotalCount H (currentHistogram ps)"
  shows "currentWindowStartSecond (statsCollector_latency H event ps) = Unix (Timestamp event)"
    and "windowedHistograms (statsCollector_latency H event ps) =
           (windowedHistograms ps)(currentWindowStartSecond ps \<mapsto> currentHistogram ps)"
    and "currentHistogram (statsCollector_latency H event ps) =
           hdr_RecordValue H (hdr_New H 1 (60 * 1000 * 1000) 3) (LatencyMicros event)"
  using assms by (auto simp add: statsCollector_latency_def block_defs Let_def)

lemma window_fill:
  assumes "currentWindowStartSecond ps = 0" and "currentHistogram ps = recorded H vs"
    and "sint (Unix (Timestamp event)) < 5" and "0 \<le> sint (Unix (Timestamp event))"
  shows "currentWindowStartSecond (statsCollector_latency H event ps) = 0"
    and "windowedHistograms (statsCollector_latency H event ps) = windowedHistograms ps"
    and "currentHistogram (statsCollector_latency H event ps) = recorded H (vs @ [LatencyMicros event])"
proof -
  have "\<not> MetricWindowSizeSeconds \<le>s Unix (Timestamp event) - currentWindowStartSecond ps"
    using assms by (simp add: MetricWindowSizeSeconds_def word_sle_eq)
  from latency_same_window [OF this, of H] assms
  show "currentWindowStartSecond (statsCollector_latency H event ps) = 0"
    and "windowedHistograms (statsCollector_latency H event ps) = windowedHistograms ps"
    and "currentHistogram (statsCollector_latency H event ps) = recorded H (vs @ [LatencyMicros event])"
    by (simp_all add: recorded_snoc)
qed

subsection \<open>Counters\<close>

lemma latency_counters:
  "TotalOps (statsCollector_latency H event ps) = TotalOps ps + 1"
  "SuccessOps (statsCollector_latency H event ps) = SuccessOps ps + 1"
  "FailedOps (statsCollector_latency H event ps) = FailedOps ps"
  by (simp_all add: statsCollector_latency_def block_defs Let_def)

lemma error_counters:
  "TotalOps (statsCollector_error now ps) = TotalOps ps + 1"
  "SuccessOps (statsCollector_error now ps) = SuccessOps ps"
  "FailedOps (statsCollector_error now ps) = FailedOps ps + 1"
  by (simp_all add: statsCollector_error_def block_defs Let_def)

lemma statsCollector_TotalOps:
  "TotalOps (statsCollector H evs ps) = TotalOps ps + word_of_nat (length evs)"
  by (induction H evs ps rule: statsCollector.induct)
     (simp_all add: latency_counters error_counters)

lemma statsCollector_SuccessOps:
  "SuccessOps (statsCollector H evs ps) =
     SuccessOps ps + word_of_nat (length (filter is_success evs))"
  by (induction H evs ps rule: statsCollector.induct)
     (simp_all add: latency_counters error_counters)

lemma statsCollector_FailedOps:
  "FailedOps (statsCollector H evs ps) =
     FailedOps ps + word_of_nat (length (filter is_failure evs))"
  by (induction H evs ps rule: statsCollector.induct)
     (simp_all add: latency_counters error_counters)

lemma successes_and_failures:
  "length (filter is_success evs) + length (filter is_failure evs) = length evs"
proof (induction evs)
  case Nil
  show ?case by simp
next
  case (Cons e evs)
  then show ?case by (cases e) simp_all
qed

lemma sint_of_nat_small:
  assumes "n < 2 ^ 63"
  shows "sint (word_of_nat n :: int64) = int n"
proof -
  from assms have "int n < 2 ^ 63"
    by (simp add: of_nat_less_numeral_power_cancel_iff)
  then show ?thesis
    by (simp add: signed_of_nat signed_take_bit_int_eq_self)
qed

lemma New_counters:
  "TotalOps (NewPerformanceStats H now1 now2) = 0"
  "SuccessOps (NewPerformanceStats H now1 now2) = 0"
  "FailedOps (NewPerformanceStats H now1 now2) = 0"
  by (simp_all add: NewPerformanceStats_def)

lemma counters_agree_New: "counters_agree (NewPerformanceStats H now1 now2)"
  by (simp add: counters_agree_def New_counters)

lemma counters_agree_latency:
  "counters_agree ps \<Longrightarrow> counters_agree (statsCollector_latency H event ps)"
  by (simp add: counters_agree_def latency_counters)

lemma counters_agree_error:
  "counters_agree ps \<Longrightarrow> counters_agree (statsCollector_error now ps)"
  by (simp add: counters_agree_def error_counters)

lemma counters_agree_statsCollector:
  "counters_agree ps \<Longrightarrow> counters_agree (statsCollector H evs ps)"
  by (induction H evs ps rule: statsCollector.induct)
     (simp_all add: counters_agree_latency counters_agree_error)

lemma counters_agree_channels:
  "counters_agree (ps\<lparr>latencyChannel := c\<rparr>) = counters_agree ps"
  "counters_agree (ps\<lparr>errorChannel := d\<rparr>) = counters_agree ps"
  by (simp_all add: counters_agree_def)

lemma counters_agree_perform:
  "counters_agree ps \<Longrightarrow> counters_agree (perform H a ps)"
proof (cases a)
  case (CallRecordLatency v now)
  assume "counters_agree ps"
  with CallRecordLatency show ?thesis
    by (simp add: RecordLatency_def counters_agree_channels)
next
  case CallRecordError
  assume "counters_agree ps"
  with CallRecordError show ?thesis
    by (simp add: RecordError_def counters_agree_channels)
next
  case SelectLatency
  assume "counters_agree ps"
  with SelectLatency show ?thesis
    by (simp add: select_latency_def counters_agree_latency counters_agree_channels
        split: list.split)
next
  case (SelectError now)
  assume "counters_agree ps"
  with SelectError show ?thesis
    by (simp add: select_error_def counters_agree_error counters_agree_channels
        split: list.split)
qed

lemma counters_agree_run:
  "counters_agree ps \<Longrightarrow> counters_agree (run H as ps)"
  by (induction as arbitrary: ps) (simp_all add: counters_agree_perform)

subsection \<open>The keys of the per-second maps\<close>

lemma same_keys_New: "same_keys (NewPerformanceStats H now1 now2)"
  by (simp add: same_keys_def NewPerformanceStats_def)

lemma same_keys_saveSecond: "same_keys ps \<Longrightarrow> same_keys (saveSecond ps)"
  by (simp add: same_keys_def saveSecond_def)

lemma same_keys_resetSecond: "same_keys (resetSecond currentSecond ps) = same_keys ps"
  by (simp add: same_keys_def resetSecond_def)

lemma same_keys_cleanupOldSeconds:
  "same_keys ps \<Longrightarrow> same_keys (cleanupOldSeconds currentSecond ps)"
  by (auto simp add: same_keys_def cleanupOldSeconds_def dom_def)

lemma same_keys_rollWindow: "same_keys (rollWindow H currentSecond ps) = same_keys ps"
  by (simp add: same_keys_def rollWindow_def)

lemma same_keys_updates:
  "same_keys (currentSecondOps_update f ps) = same_keys ps"
  "same_keys (currentSecondErrors_update f ps) = same_keys ps"
  "same_keys (Histogram_update g ps) = same_keys ps"
  "same_keys (currentHistogram_update g ps) = same_keys ps"
  "same_keys (SuccessOps_update f ps) = same_keys ps"
  "same_keys (FailedOps_update f ps) = same_keys ps"
  "same_keys (TotalOps_update f ps) = same_keys ps"
  "same_keys (latencyChannel_update k ps) = same_keys ps"
  "same_keys (errorChannel_update l ps) = same_keys ps"
  by (simp_all add: same_keys_def)

lemma same_keys_latency:
  "same_keys ps \<Longrightarrow> same_keys (statsCollector_latency H event ps)"
  by (simp add: statsCollector_latency_def Let_def same_keys_updates same_keys_rollWindow
      same_keys_cleanupOldSeconds same_keys_resetSecond same_keys_saveSecond)

lemma same_keys_error:
  "same_keys ps \<Longrightarrow> same_keys (statsCollector_error now ps)"
  by (simp add: statsCollector_error_def Let_def same_keys_updates same_keys_resetSecond
      same_keys_saveSecond)

lemma same_keys_statsCollector:
  "same_keys ps \<Longrightarrow> same_keys (statsCollector H evs ps)"
  by (induction H evs ps rule: statsCollector.induct)
     (simp_all add: same_keys_latency same_keys_error)

lemma same_keys_perform: "same_keys ps \<Longrightarrow> same_keys (perform H a ps)"
proof (cases a)
  case (CallRecordLatency v now)
  assume "same_keys ps"
  with CallRecordLatency show ?thesis
    by (simp add: RecordLatency_def same_keys_updates)
next
  case CallRecordError
  assume "same_keys ps"
  with CallRecordError show ?thesis
    by (simp add: RecordError_def same_keys_updates)
next
  case SelectLatency
  assume "same_keys ps"
  with SelectLatency show ?thesis
    by (simp add: select_latency_def same_keys_latency same_keys_updates split: list.split)
next
  case (SelectError now)
  assume "same_keys ps"
  with SelectError show ?thesis
    by (simp add: select_error_def same_keys_error same_keys_updates split: list.split)
qed

lemma same_keys_run: "same_keys ps \<Longrightarrow> same_keys (run H as ps)"
  by (induction as arbitrary: ps) (simp_all add: same_keys_perform)

subsection \<open>The mailboxes\<close>

lemma latency_channels:
  "latencyChannel (statsCollector_latency H event ps) = latencyChannel ps"
  "errorChannel (statsCollector_latency H event ps) = errorChannel ps"
  by (simp_all add: statsCollector_latency_def block_defs Let_def)

lemma error_channels:
  "latencyChannel (statsCollector_error now ps) = latencyChannel ps"
  "errorChannel (statsCollector_error now ps) = errorChannel ps"
  by (simp_all add: statsCollector_error_def block_defs Let_def)

lemma mailboxes_bounded_New: "mailboxes_bounded (NewPerformanceStats H now1 now2)"
  by (simp add: mailboxes_bounded_def NewPerformanceStats_def make_chan_def)

lemma mailboxes_bounded_perform:
  assumes "mailboxes_bounded ps"
  shows "mailboxes_bounded (perform H a ps)"
proof (cases a)
  case (CallRecordLatency v now)
  with assms show ?thesis
    by (simp add: RecordLatency_def mailboxes_bounded_def)
next
  case CallRecordError
  with assms show ?thesis
    by (simp add: RecordError_def mailboxes_bounded_def)
next
  case SelectLatency
  with assms show ?thesis
    by (auto simp add: select_latency_def mailboxes_bounded_def latency_channels split: list.split)
next
  case (SelectError now)
  with assms show ?thesis
    by (auto simp add: select_error_def mailboxes_bounded_def error_channels split: list.split)
qed

lemma mailboxes_bounded_run:
  "mailboxes_bounded ps \<Longrightarrow> mailboxes_bounded (run H as ps)"
  by (induction as arbitrary: ps) (simp_all add: mailboxes_bounded_perform)

lemma perform_success_balance:
  "word_of_nat (length (chan_buf (latencyChannel (perform H a ps)))) + SuccessOps (perform H a ps)
     = word_of_nat (length (chan_buf (latencyChannel ps))) + SuccessOps ps
       + word_of_nat (enqueued_latency H [a] ps)"
proof (cases a)
  case (CallRecordLatency v now)
  then show ?thesis by (simp add: RecordLatency_def)
next
  case CallRecordError
  then show ?thesis by (simp add: RecordError_def)
next
  case SelectLatency
  then show ?thesis
    by (simp add: select_latency_def latency_channels latency_counters split: list.split)
next
  case (SelectError now)
  then show ?thesis
    by (simp add: select_error_def error_channels error_counters split: list.split)
qed

lemma perform_failed_balance:
  "word_of_nat (length (chan_buf (errorChannel (perform H a ps)))) + FailedOps (perform H a ps)
     = word_of_nat (length (chan_buf (errorChannel ps))) + FailedOps ps
       + word_of_nat (enqueued_error H [a] ps)"
proof (cases a)
  case (CallRecordLatency v now)
  then show ?thesis by (simp add: RecordLatency_def)
next
  case CallRecordError
  then show ?thesis by (simp add: RecordError_def)
next
  case SelectLatency
  then show ?thesis
    by (simp add: select_latency_def latency_channels latency_counters split: list.split)
next
  case (SelectError now)
  then show ?thesis
    by (simp add: select_error_def error_channels error_counters split: list.split)
qed

lemma run_success_balance:
  "word_of_nat (length (chan_buf (latencyChannel (run H as ps)))) + SuccessOps (run H as ps)
     = word_of_nat (length (chan_buf (latencyChannel ps))) + SuccessOps ps
       + word_of_nat (enqueued_latency H as ps)"
proof (induction as arbitrary: ps)
  case Nil
  show ?case by simp
next
  case (Cons a as)
  have "enqueued_latency H (a # as) ps = enqueued_latency H [a] ps + enqueued_latency H as (perform H a ps)"
    by simp
  then show ?case
    using Cons [of "perform H a ps"] perform_success_balance [of H a ps]
    by (simp only: run.simps of_nat_add) (simp add: algebra_simps)
qed

lemma run_failed_balance:
  "word_of_nat (length (chan_buf (errorChannel (run H as ps)))) + FailedOps (run H as ps)
     = word_of_nat (length (chan_buf (errorChannel ps))) + FailedOps ps
       + word_of_nat (enqueued_error H as ps)"
proof (induction as arbitrary: ps)
  case Nil
  show ?case by simp
next
  case (Cons a as)
  have "enqueued_error H (a # as) ps = enqueued_error H [a] ps + enqueued_error H as (perform H a ps)"
    by simp
  then show ?case
    using Cons [of "perform H a ps"] perform_failed_balance [of H a ps]
    by (simp only: run.simps of_nat_add) (simp add: algebra_simps)
qed

subsection \<open>The reference histogram\<close>

lemma ref_hdr_simps:
  "hdr_New ref_hdr lo hi sf = \<lparr>rh_lowest = lo, rh_highest = hi, rh_values = []\<rparr>"
  "hdr_RecordValue ref_hdr h v =
     (if 0 \<le>s v \<and> v \<le>s rh_highest h then h\<lparr>rh_values := rh_values h @ [v]\<rparr> else h)"
  "hdr_TotalCount ref_hdr h = word_of_nat (length (rh_values h))"
  "hdr_ValueAtQuantile ref_hdr h q = ref_quantile (rh_values h) q"
  "hdr_Max ref_hdr h = fold max (rh_values h) 0"
  by (simp_all add: ref_hdr_def)

lemma ref_recorded_highest: "rh_highest (recorded ref_hdr vs) = 60000000"
  by (induction vs rule: rev_induct) (simp_all add: recorded_snoc recorded_Nil ref_hdr_def)

lemma ref_hdr_new_empty: "hdr_new_empty ref_hdr"
  by (simp add: hdr_new_empty_def recorded_def ref_hdr_def)

lemma ref_hdr_records:
  assumes "0 \<le>s v" and "v \<le>s 60000000"
  shows "hdr_records ref_hdr v"
  unfolding hdr_records_def
proof
  fix vs
  from assms have "hdr_RecordValue ref_hdr (recorded ref_hdr vs) v =
      (recorded ref_hdr vs)\<lparr>rh_values := rh_values (recorded ref_hdr vs) @ [v]\<rparr>"
    using ref_recorded_highest [of vs] by (simp add: ref_hdr_def)
  then show "hdr_TotalCount ref_hdr (hdr_RecordValue ref_hdr (recorded ref_hdr vs) v) =
      hdr_TotalCount ref_hdr (recorded ref_hdr vs) + 1"
    by (simp add: ref_hdr_def)
qed

lemmas example_defs = example_event_def example_fresh_def example_full_def example_six_def
  example_after_six_def ref_hdr_def ref_quantile_def recorded_def

section \<open>Theorems\<close>

text \<open>
  C1.  When the collector has received \<open>N\<close> success events and \<open>M\<close> failure
  signals, in any order, since the aggregator was made, \<open>TotalOps\<close> is \<open>N + M\<close>,
  \<open>SuccessOps\<close> is \<open>N\<close> and \<open>FailedOps\<close> is \<open>M\<close>, as \<open>int64\<close> values; below
  \<open>2 ^ 63\<close> events the counters have not wrapped and are these numbers.  With the
  mailboxes in the picture: when a run of producer calls and collector iterations leaves
  both mailboxes empty, \<open>SuccessOps\<close> and \<open>FailedOps\<close> are the numbers of events
  that the run has put into the two mailboxes, and \<open>TotalOps\<close> is their sum.
\<close>

theorem counters_after_drain:
  assumes "length (filter is_success evs) = N" and "length (filter is_failure evs) = M"
  shows "TotalOps (statsCollector H evs (NewPerformanceStats H now1 now2)) = word_of_nat (N + M)
       \<and> SuccessOps (statsCollector H evs (NewPerformanceStats H now1 now2)) = word_of_nat N
       \<and> FailedOps (statsCollector H evs (NewPerformanceStats H now1 now2)) = word_of_nat M
       \<and> (N + M < 2 ^ 63 \<longrightarrow>
            sint (TotalOps (statsCollector H evs (NewPerformanceStats H now1 now2))) = int (N + M)
          \<and> sint (SuccessOps (statsCollector H evs (NewPerformanceStats H now1 now2))) = int N
          \<and> sint (FailedOps (statsCollector H evs (NewPerformanceStats H now1 now2))) = int M)
       \<and> (chan_buf (latencyChannel (run H as (NewPerformanceStats H now1 now2))) = []
          \<and> chan_buf (errorChannel (run H as (NewPerformanceStats H now1 now2))) = [] \<longrightarrow>
            SuccessOps (run H as (NewPerformanceStats H now1 now2))
              = word_of_nat (enqueued_latency H as (NewPerformanceStats H now1 now2))
          \<and> FailedOps (run H as (NewPerformanceStats H now1 now2))
              = word_of_nat (enqueued_error H as (NewPerformanceStats H now1 now2))
          \<and> TotalOps (run H as (NewPerformanceStats H now1 now2))
              = word_of_nat (enqueued_latency H as (NewPerformanceStats H now1 now2)
                  + enqueued_error H as (NewPerformanceStats H now1 now2)))"
proof -
  let ?new = "NewPerformanceStats H now1 now2"
  let ?s = "statsCollector H evs ?new"
  let ?r = "run H as ?new"
  from assms have len: "length evs = N + M"
    using successes_and_failures [of evs] by simp
  have total: "TotalOps ?s = word_of_nat (N + M)"
    unfolding statsCollector_TotalOps New_counters len by simp
  have success: "SuccessOps ?s = word_of_nat N"
    unfolding statsCollector_SuccessOps New_counters assms by simp
  have failed: "FailedOps ?s = word_of_nat M"
    unfolding statsCollector_FailedOps New_counters assms by simp
  have signed: "sint (TotalOps ?s) = int (N + M) \<and> sint (SuccessOps ?s) = int N
      \<and> sint (FailedOps ?s) = int M" if small: "N + M < 2 ^ 63"
  proof -
    from small have "N < 2 ^ 63" and "M < 2 ^ 63" by simp_all
    then show ?thesis
      unfolding total success failed
      using small by (simp only: sint_of_nat_small simp_thms)
  qed
  have drained: "SuccessOps ?r = word_of_nat (enqueued_latency H as ?new)
      \<and> FailedOps ?r = word_of_nat (enqueued_error H as ?new)
      \<and> TotalOps ?r = word_of_nat (enqueued_latency H as ?new + enqueued_error H as ?new)"
    if empty: "chan_buf (latencyChannel ?r) = [] \<and> chan_buf (errorChannel ?r) = []"
  proof -
    have start: "chan_buf (latencyChannel ?new) = []" "chan_buf (errorChannel ?new) = []"
      by (simp_all add: NewPerformanceStats_def make_chan_def)
    from empty run_success_balance [of H as ?new]
    have s: "SuccessOps ?r = word_of_nat (enqueued_latency H as ?new)"
      by (simp add: start New_counters)
    from empty run_failed_balance [of H as ?new]
    have f: "FailedOps ?r = word_of_nat (enqueued_error H as ?new)"
      by (simp add: start New_counters)
    have "counters_agree ?r"
      by (rule counters_agree_run [OF counters_agree_New])
    with s f have "TotalOps ?r
        = word_of_nat (enqueued_latency H as ?new + enqueued_error H as ?new)"
      by (simp add: counters_agree_def)
    with s f show ?thesis by simp
  qed
  from total success failed signed drained show ?thesis by blast
qed

theorem counters_after_drain_witness:
  "TotalOps (statsCollector ref_hdr
      [RecvLatency (example_event 100 0), RecvError 300000000, RecvLatency (example_event 200 1)]
      example_fresh) = 3
   \<and> sint (SuccessOps (statsCollector ref_hdr
      [RecvLatency (example_event 100 0), RecvError 300000000, RecvLatency (example_event 200 1)]
      example_fresh)) = 2
   \<and> sint (FailedOps (statsCollector ref_hdr
      [RecvLatency (example_event 100 0), RecvError 300000000, RecvLatency (example_event 200 1)]
      example_fresh)) = 1
   \<and> chan_buf (latencyChannel (run ref_hdr example_run example_fresh)) = []
   \<and> chan_buf (errorChannel (run ref_hdr example_run example_fresh)) = []
   \<and> TotalOps (run ref_hdr example_run example_fresh) = 3
   \<and> SuccessOps (run ref_hdr example_run example_fresh) = 2
   \<and> FailedOps (run ref_hdr example_run example_fresh) = 1"
proof -
  have chans: "latencyChannel (run ref_hdr example_run example_fresh) = make_chan 1000000"
      "errorChannel (run ref_hdr example_run example_fresh) = make_chan 100"
    by (simp_all add: example_run_def example_fresh_def NewPerformanceStats_def make_chan_def
        RecordLatency_def RecordError_def select_latency_def select_error_def
        latency_channels error_channels)
  have put: "enqueued_latency ref_hdr example_run example_fresh = 2"
      "enqueued_error ref_hdr example_run example_fresh = 1"
    by (simp_all add: example_run_def example_fresh_def NewPerformanceStats_def make_chan_def
        RecordLatency_def RecordError_def select_latency_def select_error_def
        latency_channels error_channels)
  from chans have empty: "chan_buf (latencyChannel (run ref_hdr example_run example_fresh)) = []"
      "chan_buf (errorChannel (run ref_hdr example_run example_fresh)) = []"
    by (simp_all add: make_chan_def)
  from empty put counters_after_drain [of
      "[RecvLatency (example_event 100 0), RecvError 300000000, RecvLatency (example_event 200 1)]"
      2 1 ref_hdr 0 0 example_run]
  show ?thesis by (simp add: example_fresh_def)
qed

text \<open>
  C3.  After every event that the collector has processed, \<open>TotalOps\<close> is the sum of
  \<open>SuccessOps\<close> and \<open>FailedOps\<close>: in the state after any sequence of received events,
  and in the state after any interleaving of producer calls and collector iterations.
\<close>

theorem counter_invariant:
  "counters_agree (statsCollector H evs (NewPerformanceStats H now1 now2))
   \<and> counters_agree (run H as (NewPerformanceStats H now1 now2))"
  by (simp add: counters_agree_New counters_agree_statsCollector counters_agree_run)

theorem counter_invariant_witness:
  "TotalOps (statsCollector ref_hdr
      [RecvLatency (example_event 100 0), RecvError 300000000] example_fresh)
   = SuccessOps (statsCollector ref_hdr
      [RecvLatency (example_event 100 0), RecvError 300000000] example_fresh)
   + FailedOps (statsCollector ref_hdr
      [RecvLatency (example_event 100 0), RecvError 300000000] example_fresh)"
  using counter_invariant [of ref_hdr
      "[RecvLatency (example_event 100 0), RecvError 300000000]" 0 0 "[]"]
  by (simp add: counters_agree_def example_fresh_def)

text \<open>
  C4.  With a window of 5 seconds, after one success event in each of the seconds 0 to 4
  the window that started at second 0 is not yet in the archive and the current
  histogram holds the five latencies.  The event at second 5 puts that histogram into
  the archive under the key 0, with count 5 when the histogram records each of the
  five latencies, and the latency of the event at second 5 is recorded into a new
  histogram, the current one of the window that starts at second 5.
\<close>

theorem window_archive_boundary:
  assumes ts: "Unix (Timestamp e0) = 0" "Unix (Timestamp e1) = 1" "Unix (Timestamp e2) = 2"
      "Unix (Timestamp e3) = 3" "Unix (Timestamp e4) = 4" "Unix (Timestamp e5) = 5"
    and empty: "hdr_new_empty H"
    and recs: "\<forall>v \<in> set (map LatencyMicros [e0, e1, e2, e3, e4]). hdr_records H v"
  shows "windowedHistograms
           (statsCollector H (map RecvLatency [e0, e1, e2, e3, e4]) (NewPerformanceStats H now1 now2)) 0 = None
       \<and> currentHistogram
           (statsCollector H (map RecvLatency [e0, e1, e2, e3, e4]) (NewPerformanceStats H now1 now2))
          = recorded H (map LatencyMicros [e0, e1, e2, e3, e4])
       \<and> windowedHistograms
           (statsCollector H (map RecvLatency [e0, e1, e2, e3, e4, e5]) (NewPerformanceStats H now1 now2)) 0
          = Some (recorded H (map LatencyMicros [e0, e1, e2, e3, e4]))
       \<and> hdr_TotalCount H (recorded H (map LatencyMicros [e0, e1, e2, e3, e4])) = 5
       \<and> currentWindowStartSecond
           (statsCollector H (map RecvLatency [e0, e1, e2, e3, e4, e5]) (NewPerformanceStats H now1 now2)) = 5
       \<and> currentHistogram
           (statsCollector H (map RecvLatency [e0, e1, e2, e3, e4, e5]) (NewPerformanceStats H now1 now2))
          = recorded H [LatencyMicros e5]"
proof -
  define s0 where "s0 = NewPerformanceStats H now1 now2"
  define s1 where "s1 = statsCollector_latency H e0 s0"
  define s2 where "s2 = statsCollector_latency H e1 s1"
  define s3 where "s3 = statsCollector_latency H e2 s2"
  define s4 where "s4 = statsCollector_latency H e3 s3"
  define s5 where "s5 = statsCollector_latency H e4 s4"
  define s6 where "s6 = statsCollector_latency H e5 s5"
  have run5: "statsCollector H (map RecvLatency [e0, e1, e2, e3, e4]) (NewPerformanceStats H now1 now2) = s5"
    by (simp add: s0_def s1_def s2_def s3_def s4_def s5_def)
  have run6: "statsCollector H (map RecvLatency [e0, e1, e2, e3, e4, e5]) (NewPerformanceStats H now1 now2) = s6"
    by (simp add: s0_def s1_def s2_def s3_def s4_def s5_def s6_def)
  have i0: "currentWindowStartSecond s0 = 0" "windowedHistograms s0 = Map.empty"
      "currentHistogram s0 = recorded H []"
    by (simp_all add: s0_def NewPerformanceStats_def recorded_Nil)
  have i1: "currentWindowStartSecond s1 = 0" "windowedHistograms s1 = Map.empty"
      "currentHistogram s1 = recorded H [LatencyMicros e0]"
    unfolding s1_def using window_fill [OF i0(1) i0(3), of e0] i0(2) ts by simp_all
  have i2: "currentWindowStartSecond s2 = 0" "windowedHistograms s2 = Map.empty"
      "currentHistogram s2 = recorded H [LatencyMicros e0, LatencyMicros e1]"
    unfolding s2_def using window_fill [OF i1(1) i1(3), of e1] i1(2) ts by simp_all
  have i3: "currentWindowStartSecond s3 = 0" "windowedHistograms s3 = Map.empty"
      "currentHistogram s3 = recorded H [LatencyMicros e0, LatencyMicros e1, LatencyMicros e2]"
    unfolding s3_def using window_fill [OF i2(1) i2(3), of e2] i2(2) ts by simp_all
  have i4: "currentWindowStartSecond s4 = 0" "windowedHistograms s4 = Map.empty"
      "currentHistogram s4 =
         recorded H [LatencyMicros e0, LatencyMicros e1, LatencyMicros e2, LatencyMicros e3]"
    unfolding s4_def using window_fill [OF i3(1) i3(3), of e3] i3(2) ts by simp_all
  have i5: "currentWindowStartSecond s5 = 0" "windowedHistograms s5 = Map.empty"
      "currentHistogram s5 = recorded H (map LatencyMicros [e0, e1, e2, e3, e4])"
    unfolding s5_def using window_fill [OF i4(1) i4(3), of e4] i4(2) ts by simp_all
  have count: "hdr_TotalCount H (recorded H (map LatencyMicros [e0, e1, e2, e3, e4])) = 5"
    using recorded_count [OF empty recs] by simp
  have roll: "MetricWindowSizeSeconds \<le>s Unix (Timestamp e5) - currentWindowStartSecond s5"
    using ts i5(1) by (simp add: MetricWindowSizeSeconds_def word_sle_eq)
  have nonempty: "0 <s hdr_TotalCount H (currentHistogram s5)"
    using count i5(3) by (simp add: word_sless_alt)
  have i6: "currentWindowStartSecond s6 = 5"
      "windowedHistograms s6 0 = Some (recorded H (map LatencyMicros [e0, e1, e2, e3, e4]))"
      "currentHistogram s6 = recorded H [LatencyMicros e5]"
    unfolding s6_def using latency_new_window [OF roll nonempty] i5 ts
    by (simp_all add: recorded_def)
  show ?thesis
    unfolding run5 run6 using i5 i6 count by simp
qed

theorem window_archive_boundary_witness:
  "windowedHistograms
     (statsCollector ref_hdr
        (map RecvLatency [example_event 10 0, example_event 20 1, example_event 30 2,
           example_event 40 3, example_event 50 4, example_event 60 5])
        (NewPerformanceStats ref_hdr 0 0)) 0
     = Some (recorded ref_hdr [10, 20, 30, 40, 50])
   \<and> hdr_TotalCount ref_hdr (recorded ref_hdr [10, 20, 30, 40, 50]) = 5
   \<and> currentWindowStartSecond
     (statsCollector ref_hdr
        (map RecvLatency [example_event 10 0, example_event 20 1, example_event 30 2,
           example_event 40 3, example_event 50 4, example_event 60 5])
        (NewPerformanceStats ref_hdr 0 0)) = 5
   \<and> currentHistogram
     (statsCollector ref_hdr
        (map RecvLatency [example_event 10 0, example_event 20 1, example_event 30 2,
           example_event 40 3, example_event 50 4, example_event 60 5])
        (NewPerformanceStats ref_hdr 0 0)) = recorded ref_hdr [60]"
proof -
  have ts: "Unix (Timestamp (example_event 10 0)) = 0" "Unix (Timestamp (example_event 20 1)) = 1"
      "Unix (Timestamp (example_event 30 2)) = 2" "Unix (Timestamp (example_event 40 3)) = 3"
      "Unix (Timestamp (example_event 50 4)) = 4" "Unix (Timestamp (example_event 60 5)) = 5"
    by (simp_all add: example_event_def Unix_def)
  have recs: "\<forall>v \<in> set (map LatencyMicros [example_event 10 0, example_event 20 1,
      example_event 30 2, example_event 40 3, example_event 50 4]). hdr_records ref_hdr v"
    by (simp add: example_event_def ref_hdr_records word_sle_eq)
  show ?thesis
    using window_archive_boundary [OF ts ref_hdr_new_empty recs, of 0 0]
    by (simp add: example_event_def)
qed

text \<open>
  C10.  After every event that the collector has processed, the per-second operations
  map and the per-second errors map have the same keys: in the state after any sequence
  of received events, and in the state after any interleaving of producer calls and
  collector iterations.
\<close>

theorem per_second_maps_same_keys:
  "dom (perSecondOps (statsCollector H evs (NewPerformanceStats H now1 now2)))
     = dom (perSecondErrors (statsCollector H evs (NewPerformanceStats H now1 now2)))
   \<and> dom (perSecondOps (run H as (NewPerformanceStats H now1 now2)))
     = dom (perSecondErrors (run H as (NewPerformanceStats H now1 now2)))"
  using same_keys_statsCollector [OF same_keys_New, of H evs H now1 now2]
    same_keys_run [OF same_keys_New, of H as H now1 now2]
  by (simp add: same_keys_def)

theorem per_second_maps_same_keys_witness:
  "dom (perSecondOps (statsCollector ref_hdr
      [RecvLatency (example_event 100 0), RecvError 1300000000] example_fresh))
   = dom (perSecondErrors (statsCollector ref_hdr
      [RecvLatency (example_event 100 0), RecvError 1300000000] example_fresh))"
  using per_second_maps_same_keys [of ref_hdr
      "[RecvLatency (example_event 100 0), RecvError 1300000000]" 0 0 "[]"]
  by (simp add: example_fresh_def)

text \<open>
  C6.  A call of \<open>RecordLatency\<close> or \<open>RecordError\<close> on a full mailbox returns at once
  with the whole state as it was: the event is dropped and nothing counts it.  So in
  every state that producer calls and collector iterations reach from a new aggregator,
  the latency mailbox holds at most 1000000 events and the error mailbox at most 100
  signals.
\<close>

theorem drop_when_full:
  "(chan_full (latencyChannel ps) \<longrightarrow> RecordLatency latencyMicros now ps = ps)
   \<and> (chan_full (errorChannel ps) \<longrightarrow> RecordError ps = ps)
   \<and> length (chan_buf (latencyChannel (run H as (NewPerformanceStats H now1 now2)))) \<le> 1000000
   \<and> length (chan_buf (errorChannel (run H as (NewPerformanceStats H now1 now2)))) \<le> 100"
proof -
  have "mailboxes_bounded (run H as (NewPerformanceStats H now1 now2))"
    by (rule mailboxes_bounded_run [OF mailboxes_bounded_New])
  then show ?thesis
    by (simp add: mailboxes_bounded_def chan_full_def RecordLatency_def RecordError_def)
qed

theorem drop_when_full_witness:
  "chan_full (latencyChannel example_full)
   \<and> RecordLatency 7 2000000000 example_full = example_full
   \<and> chan_full (errorChannel example_full)
   \<and> RecordError example_full = example_full
   \<and> length (chan_buf (errorChannel (run ref_hdr [CallRecordError, CallRecordError]
        (NewPerformanceStats ref_hdr 0 0)))) \<le> 100"
proof -
  have full: "chan_full (latencyChannel example_full)" "chan_full (errorChannel example_full)"
    by (simp_all add: chan_full_def example_full_def)
  with drop_when_full [of example_full 7 2000000000 ref_hdr "[CallRecordError, CallRecordError]" 0 0]
  show ?thesis by simp
qed

text \<open>
  C7.  \<open>GetPreviousWindowStats\<close> returns the count, the quantiles at 50, 95 and 99 and
  the maximum of the histogram archived under the key
  \<open>currentWindowStartSecond - MetricWindowSizeSeconds\<close> when there is one and its count
  is not 0, and it returns five zeros exactly when the archive has no histogram under
  that key or the count of that histogram is 0.
\<close>

theorem previous_window_snapshot:
  "(windowedHistograms ps (currentWindowStartSecond ps - MetricWindowSizeSeconds) = Some h
      \<and> hdr_TotalCount H h \<noteq> 0 \<longrightarrow>
    GetPreviousWindowStats H ps =
      (hdr_TotalCount H h, hdr_ValueAtQuantile H h 50, hdr_ValueAtQuantile H h 95,
       hdr_ValueAtQuantile H h 99, hdr_Max H h))
   \<and> (GetPreviousWindowStats H ps = (0, 0, 0, 0, 0) \<longleftrightarrow>
        (case windowedHistograms ps (currentWindowStartSecond ps - MetricWindowSizeSeconds) of
           None \<Rightarrow> True
         | Some h' \<Rightarrow> hdr_TotalCount H h' = 0))"
  by (simp add: GetPreviousWindowStats_def split: option.split)

theorem previous_window_snapshot_witness:
  "windowedHistograms example_after_six
     (currentWindowStartSecond example_after_six - MetricWindowSizeSeconds)
     = Some (recorded ref_hdr [10, 20, 30, 40, 50])
   \<and> GetPreviousWindowStats ref_hdr example_after_six = (5, 30, 50, 50, 50)
   \<and> GetPreviousWindowStats ref_hdr example_fresh = (0, 0, 0, 0, 0)"
proof -
  let ?h = "recorded ref_hdr [10, 20, 30, 40, 50]"
  have archived: "windowedHistograms example_after_six
      (currentWindowStartSecond example_after_six - MetricWindowSizeSeconds) = Some ?h"
    by (simp add: eval_defs example_defs)
  have vals: "rh_values ?h = [10, 20, 30, 40, 50]"
    by (simp add: example_defs word_sle_eq)
  have count: "hdr_TotalCount ref_hdr ?h = 5"
    by (simp add: ref_hdr_simps vals)
  have quantiles: "hdr_ValueAtQuantile ref_hdr ?h 50 = 30" "hdr_ValueAtQuantile ref_hdr ?h 95 = 50"
      "hdr_ValueAtQuantile ref_hdr ?h 99 = 50" "hdr_Max ref_hdr ?h = 50"
    by (simp_all add: ref_hdr_simps vals ref_quantile_def)
  have fresh: "windowedHistograms example_fresh
      (currentWindowStartSecond example_fresh - MetricWindowSizeSeconds) = None"
    by (simp add: example_fresh_def NewPerformanceStats_def)
  from count have "hdr_TotalCount ref_hdr ?h \<noteq> 0" by simp
  with archived previous_window_snapshot [of example_after_six ?h ref_hdr]
  have "GetPreviousWindowStats ref_hdr example_after_six =
      (hdr_TotalCount ref_hdr ?h, hdr_ValueAtQuantile ref_hdr ?h 50,
       hdr_ValueAtQuantile ref_hdr ?h 95, hdr_ValueAtQuantile ref_hdr ?h 99, hdr_Max ref_hdr ?h)"
    by blast
  then have six: "GetPreviousWindowStats ref_hdr example_after_six = (5, 30, 50, 50, 50)"
    by (simp only: count quantiles)
  from previous_window_snapshot [of example_fresh undefined ref_hdr]
  have "GetPreviousWindowStats ref_hdr example_fresh = (0, 0, 0, 0, 0)"
    by (simp only: fresh option.case simp_thms)
  with six archived show ?thesis by blast
qed

text \<open>
  C8.  \<open>GetLastSecondPercentile\<close> returns the quantile of the histogram archived under
  the key \<open>now - 1\<close> when there is one and its count is positive; otherwise the quantile
  of the current histogram when the count of that one is positive; otherwise 0.
\<close>

theorem last_second_percentile:
  "GetLastSecondPercentile H now percentile ps =
     (if archived_nonempty H (windowedHistograms ps (Unix now - 1))
      then hdr_ValueAtQuantile H (the (windowedHistograms ps (Unix now - 1))) percentile
      else if 0 <s hdr_TotalCount H (currentHistogram ps)
        then hdr_ValueAtQuantile H (currentHistogram ps) percentile
      else 0)"
  by (simp add: GetLastSecondPercentile_def archived_nonempty_def Let_def split: option.split)

theorem last_second_percentile_witness:
  "GetLastSecondPercentile ref_hdr 1500000000 50 example_after_six = 30
   \<and> GetLastSecondPercentile ref_hdr 10500000000 50 example_after_six = 60
   \<and> GetLastSecondPercentile ref_hdr 10500000000 50 example_fresh = 0"
proof -
  let ?h = "recorded ref_hdr [10, 20, 30, 40, 50]"
  have keys: "Unix 1500000000 - 1 = 0" "Unix 10500000000 - 1 = 9"
    by (simp_all add: Unix_def)
  have archive: "windowedHistograms example_after_six 0 = Some ?h"
      "windowedHistograms example_after_six 9 = None"
    by (simp_all add: eval_defs example_defs)
  have current: "currentHistogram example_after_six = recorded ref_hdr [60]"
    by (simp add: eval_defs example_defs)
  have vals: "rh_values ?h = [10, 20, 30, 40, 50]" "rh_values (recorded ref_hdr [60]) = [60]"
    by (simp_all add: example_defs word_sle_eq)
  have fresh: "windowedHistograms example_fresh 9 = None"
      "rh_values (currentHistogram example_fresh) = []"
    by (simp_all add: example_fresh_def NewPerformanceStats_def ref_hdr_simps)
  have "GetLastSecondPercentile ref_hdr 1500000000 50 example_after_six = 30"
    using last_second_percentile [of ref_hdr 1500000000 50 example_after_six]
    by (simp add: keys archive archived_nonempty_def ref_hdr_simps vals ref_quantile_def
        word_sless_alt)
  moreover have "GetLastSecondPercentile ref_hdr 10500000000 50 example_after_six = 60"
    using last_second_percentile [of ref_hdr 10500000000 50 example_after_six]
    by (simp add: keys archive current archived_nonempty_def ref_hdr_simps vals ref_quantile_def
        word_sless_alt)
  moreover have "GetLastSecondPercentile ref_hdr 10500000000 50 example_fresh = 0"
    using last_second_percentile [of ref_hdr 10500000000 50 example_fresh]
    by (simp add: keys fresh archived_nonempty_def ref_hdr_simps word_sless_alt)
  ultimately show ?thesis by blast
qed

text \<open>
  C9.  A new aggregator that has received no event reports a throughput of 0, whatever
  the clock reads; \<open>GetQPS\<close> is 0 in any state when the elapsed time is 0;
  \<open>GetStats\<close> of the new aggregator is seven zeros, so the three percentiles are 0;
  \<open>GetPreviousWindowStats\<close> is five zeros and \<open>GetOpsLastSecond\<close> is 0.  The
  histogram library is asked that a new histogram has count 0.
\<close>

theorem fresh_defaults:
  assumes "hdr_new_empty H"
  shows "GetQPS now (NewPerformanceStats H now1 now2) = 0
       \<and> (Seconds (Since now (StartTime ps)) = 0 \<longrightarrow> GetQPS now ps = 0)
       \<and> GetStats H now (NewPerformanceStats H now1 now2) = (0, 0, 0, 0, 0, 0, 0)
       \<and> GetPreviousWindowStats H (NewPerformanceStats H now1 now2) = (0, 0, 0, 0, 0)
       \<and> GetOpsLastSecond now (NewPerformanceStats H now1 now2) = 0"
proof -
  have qps: "GetQPS now (NewPerformanceStats H now1 now2) = 0"
    by (simp add: GetQPS_def NewPerformanceStats_def Let_def)
  have zero: "Seconds (Since now (StartTime ps)) = 0 \<longrightarrow> GetQPS now ps = 0"
    by (simp add: GetQPS_def Let_def)
  from assms have "\<not> 0 <s hdr_TotalCount H (Histogram (NewPerformanceStats H now1 now2))"
    by (simp add: hdr_new_empty_def recorded_Nil NewPerformanceStats_def)
  then have stats: "GetStats H now (NewPerformanceStats H now1 now2) = (0, 0, 0, 0, 0, 0, 0)"
    using qps by (simp add: GetStats_def Let_def New_counters)
  have prev: "GetPreviousWindowStats H (NewPerformanceStats H now1 now2) = (0, 0, 0, 0, 0)"
    by (simp add: GetPreviousWindowStats_def NewPerformanceStats_def)
  have ops: "GetOpsLastSecond now (NewPerformanceStats H now1 now2) = 0"
    by (simp add: GetOpsLastSecond_def NewPerformanceStats_def Let_def)
  from qps zero stats prev ops show ?thesis by blast
qed

theorem fresh_defaults_witness:
  "GetQPS 7000000000 example_fresh = 0
   \<and> Seconds (Since 0 (StartTime example_after_six)) = 0
   \<and> TotalOps example_after_six = 6
   \<and> GetQPS 0 example_after_six = 0
   \<and> GetStats ref_hdr 7000000000 example_fresh = (0, 0, 0, 0, 0, 0, 0)
   \<and> GetPreviousWindowStats ref_hdr example_fresh = (0, 0, 0, 0, 0)
   \<and> GetOpsLastSecond 7000000000 example_fresh = 0"
proof -
  have start: "StartTime example_after_six = 0"
    by (simp add: eval_defs example_defs)
  then have elapsed: "Seconds (Since 0 (StartTime example_after_six)) = 0"
    by (simp add: Seconds_def Since_def)
  have total: "TotalOps example_after_six = 6"
    by (simp add: example_after_six_def example_six_def example_fresh_def
        latency_counters New_counters)
  from elapsed total
    fresh_defaults [OF ref_hdr_new_empty, where now = 7000000000 and ?now1.0 = 0
      and ?now2.0 = 0 and ps = example_after_six]
    fresh_defaults [OF ref_hdr_new_empty, where now = 0 and ?now1.0 = 0
      and ?now2.0 = 0 and ps = example_after_six]
  show ?thesis by (simp add: example_fresh_def)
qed

text \<open>
  C2, as the code has it.  The error case stores the finished second into both maps but
  does not sweep them.  Second 0 has one success and second 1 has one success; a failure
  signal received in second 100 leaves the key 0, then 100 seconds old, in both maps,
  with the key 1 that it has just stored.  A success event received in second 100
  instead removes both keys.
\<close>

theorem error_case_does_not_sweep:
  "perSecondOps (statsCollector ref_hdr
      [RecvLatency (example_event 10 0), RecvLatency (example_event 20 1),
       RecvError 100000000000] example_fresh) 0 = Some 1
   \<and> perSecondErrors (statsCollector ref_hdr
      [RecvLatency (example_event 10 0), RecvLatency (example_event 20 1),
       RecvError 100000000000] example_fresh) 0 = Some 0
   \<and> perSecondOps (statsCollector ref_hdr
      [RecvLatency (example_event 10 0), RecvLatency (example_event 20 1),
       RecvError 100000000000] example_fresh) 1 = Some 1
   \<and> perSecondOps (statsCollector ref_hdr
      [RecvLatency (example_event 10 0), RecvLatency (example_event 20 1),
       RecvLatency (example_event 30 100)] example_fresh) 0 = None
   \<and> perSecondOps (statsCollector ref_hdr
      [RecvLatency (example_event 10 0), RecvLatency (example_event 20 1),
       RecvLatency (example_event 30 100)] example_fresh) 1 = None"
  by (simp add: eval_defs example_defs)

text \<open>
  C5, as the code has it.  One success in second 0 and then a failure signal received
  in second 61: the collector has processed an event of second \<open>0 + 61\<close>, and both
  per-second maps have an entry for the key 0, which the failure itself has stored.
  Failure signals of later seconds leave it there.
\<close>

theorem old_second_survives_failure:
  "perSecondOps (statsCollector ref_hdr
      [RecvLatency (example_event 10 0), RecvError 61000000000] example_fresh) 0 = Some 1
   \<and> perSecondErrors (statsCollector ref_hdr
      [RecvLatency (example_event 10 0), RecvError 61000000000] example_fresh) 0 = Some 0
   \<and> perSecondOps (statsCollector ref_hdr
      [RecvLatency (example_event 10 0), RecvError 61000000000, RecvError 200000000000,
       RecvError 300000000000] example_fresh) 0 = Some 1"
  by (simp add: eval_defs example_defs)

end
